theory Spec2Isabelle
  imports Complex_Main "HOL-Library.Multiset" "HOL-Library.Char_ord" "HOL-Library.List_Lexorder"
begin

section \<open>Student Performance Analyzer: values, rows and the two metric functions\<close>

text \<open>
  The program (\<^verbatim>\<open>main.py\<close>) keeps a table of students in \<^verbatim>\<open>student_data.csv\<close>,
  one column \<^verbatim>\<open>Name\<close> and one column per subject, and derives a percentage and a
  letter grade per student.

  Scope of the embedding.
  \<^item> A stored cell is an integer, the missing value \<^verbatim>\<open>nan\<close> (what \<^verbatim>\<open>read_csv\<close> yields
    for an empty field) or a text. Marks with a fractional part are outside the model.
  \<^item> A computed number is \<^verbatim>\<open>nan\<close> or the rational that the Python float stands for.
    For \<^verbatim>\<open>calculate_percentage\<close> on integer marks this loses nothing: the exact
    quotient \<open>total / 6\<close> has third decimal digits \<open>0\<close>, \<open>3\<close> or \<open>6\<close> only, so
    it is never near a rounding tie, and the rounding error of the float operations, which
    is many orders of magnitude smaller, cannot change the two-decimal result.
  \<^item> Every \<^verbatim>\<open>raise\<close> is a value \<open>Inl e\<close>; every \<^verbatim>\<open>print\<close> is an event.
  \<^item> The console input is the list of lines still to be typed; \<^verbatim>\<open>input\<close> at its end
    raises \<^verbatim>\<open>EOFError\<close>, so every loop of the program ends.
  \<^item> The functions \<^verbatim>\<open>initialize_csv\<close>, \<^verbatim>\<open>add_student\<close>, \<^verbatim>\<open>calculate_percentage\<close>,
    \<^verbatim>\<open>assign_grade\<close> and \<^verbatim>\<open>analyze_performance\<close> are embedded; the dispatching loop
    of \<^verbatim>\<open>main\<close> is not.
\<close>

datatype exn =
  KeyError | TypeError | ValueError | ZeroDivisionError | EOFError
  | EmptyDataError | ParserError | UnicodeDecodeError

datatype cell = IntV int | NaNV | StrV string

datatype pynum = Fin rat | NaN

text \<open>A row handed to \<^verbatim>\<open>calculate_percentage\<close> is a pandas Series: labels with values.\<close>

type_synonym series = "(string \<times> cell) list"

text \<open>A printed line is kept as the pieces of its f-string, values unformatted.\<close>

datatype piece = Lit string | Cell cell | Num pynum | Exn exn

datatype event =
  Print "piece list"
  | Prompt string
  | Print_Table "string list" "piece list list"

definition SUBJECTS :: "string list" where
  "SUBJECTS = [''Machine Learning'', ''UHV'', ''DMGT'', ''DBMS'', ''OT'', ''ES'']"

definition CSV_FILE :: string where
  "CSV_FILE = ''student_data.csv''"

text \<open>\<^verbatim>\<open>row[k]\<close>: a label that is not in the Series raises \<^verbatim>\<open>KeyError\<close>.\<close>

definition getitem :: "series \<Rightarrow> string \<Rightarrow> exn + cell" where
  "getitem row k = (case map_of row k of None \<Rightarrow> Inl KeyError | Some v \<Rightarrow> Inr v)"

text \<open>
  \<^verbatim>\<open>acc + v\<close> inside \<^verbatim>\<open>sum\<close>: a number plus a text raises \<^verbatim>\<open>TypeError\<close>, anything
  plus \<^verbatim>\<open>nan\<close> is \<^verbatim>\<open>nan\<close>.
\<close>

fun py_add :: "pynum \<Rightarrow> cell \<Rightarrow> exn + pynum" where
  "py_add acc (StrV s) = Inl TypeError"
| "py_add acc NaNV = Inr NaN"
| "py_add NaN (IntV m) = Inr NaN"
| "py_add (Fin a) (IntV m) = Inr (Fin (a + of_int m))"

text \<open>
  \<^verbatim>\<open>sum(row[sub] for sub in subs)\<close>: the generator is consumed left to right, so the
  first subject that fails decides which exception is raised.
\<close>

fun py_sum :: "series \<Rightarrow> string list \<Rightarrow> pynum \<Rightarrow> exn + pynum" where
  "py_sum row [] acc = Inr acc"
| "py_sum row (sub # subs) acc =
     (case getitem row sub of
        Inl e \<Rightarrow> Inl e
      | Inr v \<Rightarrow>
          (case py_add acc v of
             Inl e \<Rightarrow> Inl e
           | Inr acc' \<Rightarrow> py_sum row subs acc'))"

definition py_truediv :: "pynum \<Rightarrow> int \<Rightarrow> exn + pynum" where
  "py_truediv x d =
     (if d = 0 then Inl ZeroDivisionError
      else Inr (case x of NaN \<Rightarrow> NaN | Fin q \<Rightarrow> Fin (q / of_int d)))"

definition py_mul :: "pynum \<Rightarrow> int \<Rightarrow> pynum" where
  "py_mul x k = (case x of NaN \<Rightarrow> NaN | Fin q \<Rightarrow> Fin (q * of_int k))"

text \<open>Rounding to the nearest integer, a tie going to the even neighbour.\<close>

definition round_half_even :: "rat \<Rightarrow> int" where
  "round_half_even x =
     (let f = \<lfloor>x\<rfloor>; d = x - of_int f
      in if d < 1 / 2 then f
         else if 1 / 2 < d then f + 1
         else if even f then f else f + 1)"

text \<open>\<^verbatim>\<open>round(x, 2)\<close>; \<^verbatim>\<open>round(nan, 2)\<close> is \<^verbatim>\<open>nan\<close>.\<close>

definition py_round2 :: "pynum \<Rightarrow> pynum" where
  "py_round2 x =
     (case x of NaN \<Rightarrow> NaN | Fin q \<Rightarrow> Fin (of_int (round_half_even (q * 100)) / 100))"

text \<open>
  \<^verbatim>\<open>calculate_percentage\<close> with the subject list as a parameter (the source reads the
  global \<^verbatim>\<open>SUBJECTS\<close>). The result comes with the lines printed. The handler of
  \<^verbatim>\<open>KeyError\<close> reads \<^verbatim>\<open>row['Name']\<close> itself, which can raise again.
\<close>

definition percentage_body :: "string list \<Rightarrow> series \<Rightarrow> exn + pynum" where
  "percentage_body subs row =
     (case py_sum row subs (Fin 0) of
        Inl e \<Rightarrow> Inl e
      | Inr tot \<Rightarrow>
          (case py_truediv tot (int (length subs) * 100) of
             Inl e \<Rightarrow> Inl e
           | Inr q \<Rightarrow> Inr (py_round2 (py_mul q 100))))"

definition percentage_over :: "string list \<Rightarrow> series \<Rightarrow> (exn + pynum) \<times> event list" where
  "percentage_over subs row =
     (case percentage_body subs row of
        Inr p \<Rightarrow> (Inr p, [])
      | Inl e \<Rightarrow>
          (if e = KeyError then
             (case getitem row ''Name'' of
                Inl e' \<Rightarrow> (Inl e', [])
              | Inr n \<Rightarrow>
                  (Inr (Fin 0), [Print [Lit ''Warning: Missing subject data for '', Cell n]]))
           else (Inl e, [])))"

definition calculate_percentage :: "series \<Rightarrow> (exn + pynum) \<times> event list" where
  "calculate_percentage row = percentage_over SUBJECTS row"

text \<open>\<^verbatim>\<open>percentage >= t\<close>: every comparison with \<^verbatim>\<open>nan\<close> is false.\<close>

definition py_ge :: "pynum \<Rightarrow> rat \<Rightarrow> bool" where
  "py_ge p t = (case p of NaN \<Rightarrow> False | Fin q \<Rightarrow> t \<le> q)"

definition assign_grade :: "pynum \<Rightarrow> string" where
  "assign_grade percentage =
     (if py_ge percentage 90 then ''A+''
      else if py_ge percentage 80 then ''A''
      else if py_ge percentage 70 then ''B+''
      else if py_ge percentage 60 then ''B''
      else if py_ge percentage 50 then ''C''
      else if py_ge percentage 40 then ''D''
      else ''F'')"

section \<open>Tables, files and the console\<close>

text \<open>
  A DataFrame is its column labels and its rows, each row holding one cell per column.
  The index is the default \<open>0, 1, 2, \<dots>\<close> that \<^verbatim>\<open>read_csv\<close> and
  \<^verbatim>\<open>ignore_index=True\<close> give, so a row label is the position of the row.
\<close>

record dataframe =
  columns :: "string list"
  rows :: "cell list list"


text \<open>\<^verbatim>\<open>pd.DataFrame(columns=cs)\<close>: the given columns and no rows.\<close>

definition DataFrame :: "string list \<Rightarrow> dataframe" where
  "DataFrame cs = \<lparr>columns = cs, rows = []\<rparr>"

text \<open>\<^verbatim>\<open>pd.DataFrame([d])\<close> for one dict \<open>d\<close>: its keys are the columns, its values the row.\<close>

definition frame_of_dict :: "(string \<times> cell) list \<Rightarrow> dataframe" where
  "frame_of_dict d = \<lparr>columns = map fst d, rows = [map snd d]\<rparr>"

text \<open>The Series of one row, as \<^verbatim>\<open>df.apply(f, axis=1)\<close> and \<^verbatim>\<open>df.loc[i]\<close> hand it out.\<close>

definition row_series :: "dataframe \<Rightarrow> cell list \<Rightarrow> series" where
  "row_series df r = zip (columns df) r"

text \<open>\<^verbatim>\<open>df[sub] = 0\<close> for a label that is not a column yet: a new last column.\<close>

definition add_column :: "dataframe \<Rightarrow> string \<Rightarrow> cell \<Rightarrow> dataframe" where
  "add_column df c v = \<lparr>columns = columns df @ [c], rows = map (\<lambda>r. r @ [v]) (rows df)\<rparr>"

text \<open>
  \<^verbatim>\<open>for sub in SUBJECTS: if sub not in df.columns: df[sub] = 0\<close>
  (in \<^verbatim>\<open>initialize_csv\<close> and in \<^verbatim>\<open>analyze_performance\<close>).
\<close>

fun ensure_columns :: "string list \<Rightarrow> dataframe \<Rightarrow> dataframe" where
  "ensure_columns [] df = df"
| "ensure_columns (sub # subs) df =
     ensure_columns subs (if sub \<notin> set (columns df) then add_column df sub (IntV 0) else df)"

text \<open>
  \<^verbatim>\<open>pd.concat([a, b], ignore_index=True)\<close>: the columns of \<open>a\<close>, then those of \<open>b\<close>
  that \<open>a\<close> lacks; the rows of \<open>a\<close>, then those of \<open>b\<close>; a cell that a row has no value
  for is \<^verbatim>\<open>nan\<close>.
\<close>

definition reindex :: "string list \<Rightarrow> string list \<Rightarrow> cell list \<Rightarrow> cell list" where
  "reindex cs cols r = map (\<lambda>c. case map_of (zip cs r) c of None \<Rightarrow> NaNV | Some v \<Rightarrow> v) cols"

definition concat_frames :: "dataframe \<Rightarrow> dataframe \<Rightarrow> dataframe" where
  "concat_frames a b =
     (let cols = columns a @ filter (\<lambda>c. c \<notin> set (columns a)) (columns b)
      in \<lparr>columns = cols,
          rows = map (reindex (columns a) cols) (rows a) @ map (reindex (columns b) cols) (rows b)\<rparr>)"

text \<open>\<^verbatim>\<open>df.empty\<close>: no row or no column.\<close>

definition df_empty :: "dataframe \<Rightarrow> bool" where
  "df_empty df = (rows df = [] \<or> columns df = [])"

text \<open>
  What a file holds is kept by what \<^verbatim>\<open>pandas\<close> and \<^verbatim>\<open>os\<close> make of it:
  \<^item> \<open>Csv df\<close>: text that \<^verbatim>\<open>read_csv\<close> parses to the table \<open>df\<close>;
  \<^item> \<open>Empty_File\<close>: zero bytes (\<^verbatim>\<open>st_size == 0\<close>);
  \<^item> \<open>Blank_File\<close>: some bytes but no column to parse, such as a lone line break;
  \<^item> \<open>Malformed\<close>: text that the tokenizer rejects (\<^verbatim>\<open>ParserError\<close>), such as a data
    line with more fields than the header;
  \<^item> \<open>Image c\<close>: a chart written by \<^verbatim>\<open>savefig\<close>.
  The CSV text itself (quoting, the spelling of numbers) is not modelled.
\<close>

datatype chart = Bar_Chart "(string \<times> pynum) list" | Pie_Chart "(string \<times> nat) list"

datatype content = Csv dataframe | Empty_File | Blank_File | Malformed | Image chart

record world =
  stdin :: "string list"
  stdout :: "event list"
  files :: "string \<rightharpoonup> content"

definition st_size_zero :: "content \<Rightarrow> bool" where
  "st_size_zero c = (c = Empty_File)"

definition read_csv :: "content \<Rightarrow> exn + dataframe" where
  "read_csv c =
     (case c of
        Csv df \<Rightarrow> Inr df
      | Empty_File \<Rightarrow> Inl EmptyDataError
      | Blank_File \<Rightarrow> Inl EmptyDataError
      | Malformed \<Rightarrow> Inl ParserError
      | Image ch \<Rightarrow> Inl UnicodeDecodeError)"

text \<open>
  Writing a table and reading it again is not the identity on text cells:
  \<^verbatim>\<open>read_csv\<close> takes an empty field, and each of the words below (its default
  \<^verbatim>\<open>na_values\<close>), for a missing value. So the text that \<^verbatim>\<open>to_csv\<close> writes for a table
  is text that \<^verbatim>\<open>read_csv\<close> parses to the table with every such text cell replaced by
  \<^verbatim>\<open>nan\<close>. (A text cell that \<^verbatim>\<open>read_csv\<close> would take for a number or a truth value,
  which depends on the other cells of its column, is outside the model, as fractional
  marks are.)
\<close>

definition na_values :: "string list" where
  "na_values = [[], ''#N/A'', ''#N/A N/A'', ''#NA'', ''-1.#IND'', ''-1.#QNAN'', ''-NaN'',
                ''-nan'', ''1.#IND'', ''1.#QNAN'', ''<NA>'', ''N/A'', ''NA'', ''NULL'', ''NaN'',
                ''None'', ''n/a'', ''nan'', ''null'']"

definition csv_cell :: "cell \<Rightarrow> cell" where
  "csv_cell c = (case c of StrV s \<Rightarrow> if s \<in> set na_values then NaNV else StrV s | _ \<Rightarrow> c)"

definition read_back :: "dataframe \<Rightarrow> dataframe" where
  "read_back df = \<lparr>columns = columns df, rows = map (map csv_cell) (rows df)\<rparr>"

definition to_csv :: "dataframe \<Rightarrow> string \<Rightarrow> world \<Rightarrow> world" where
  "to_csv df path w = w\<lparr>files := (files w)(path \<mapsto> Csv (read_back df))\<rparr>"

definition py_print :: "piece list \<Rightarrow> world \<Rightarrow> world" where
  "py_print ps w = w\<lparr>stdout := stdout w @ [Print ps]\<rparr>"

definition say :: "string \<Rightarrow> world \<Rightarrow> world" where
  "say s w = py_print [Lit s] w"

text \<open>The prompt that \<^verbatim>\<open>input(prompt)\<close> writes before it reads a line.\<close>

definition prompt :: "string \<Rightarrow> world \<Rightarrow> world" where
  "prompt s w = w\<lparr>stdout := stdout w @ [Prompt s]\<rparr>"

section \<open>The store and record entry\<close>

definition initialize_csv :: "world \<Rightarrow> (exn + unit) \<times> world" where
  "initialize_csv w =
     (case files w CSV_FILE of
        None \<Rightarrow> (Inr (), to_csv (DataFrame (''Name'' # SUBJECTS)) CSV_FILE w)
      | Some c \<Rightarrow>
          (case read_csv c of
             Inr df \<Rightarrow> (Inr (), to_csv (ensure_columns SUBJECTS df) CSV_FILE w)
           | Inl e \<Rightarrow>
               (if e = EmptyDataError
                then (Inr (), to_csv (DataFrame (''Name'' # SUBJECTS)) CSV_FILE w)
                else (Inl e, w))))"

text \<open>
  The \<^verbatim>\<open>while True\<close> loop that asks for one mark. It runs on the lines still unread,
  which are the world's \<open>stdin\<close>: each round takes one line, and at the end of the input
  \<^verbatim>\<open>input\<close> raises \<^verbatim>\<open>EOFError\<close>. \<open>int_of\<close> stands for Python's \<^verbatim>\<open>int\<close>:
  \<open>Some n\<close> when the line denotes the integer \<open>n\<close>, \<open>None\<close> when \<^verbatim>\<open>int\<close> raises
  \<^verbatim>\<open>ValueError\<close>.
\<close>

fun read_mark :: "(string \<Rightarrow> int option) \<Rightarrow> string \<Rightarrow> world \<Rightarrow> string list \<Rightarrow> (exn + int) \<times> world" where
  "read_mark int_of sub w [] =
     (Inl EOFError, prompt (''Enter '' @ sub @ '' marks (out of 100): '') w)"
| "read_mark int_of sub w (line # rest) =
     (let w1 = (prompt (''Enter '' @ sub @ '' marks (out of 100): '') w)\<lparr>stdin := rest\<rparr>
      in case int_of line of
           None \<Rightarrow> read_mark int_of sub (say ''Please enter a valid number!'' w1) rest
         | Some mark \<Rightarrow>
             (if 0 \<le> mark \<and> mark \<le> 100 then (Inr mark, w1)
              else read_mark int_of sub (say ''Marks should be between 0 and 100!'' w1) rest))"

text \<open>\<^verbatim>\<open>for sub in SUBJECTS\<close>: the marks in the order of the subjects.\<close>

fun read_marks :: "(string \<Rightarrow> int option) \<Rightarrow> string list \<Rightarrow> world \<Rightarrow> (exn + int list) \<times> world" where
  "read_marks int_of [] w = (Inr [], w)"
| "read_marks int_of (sub # subs) w =
     (case read_mark int_of sub w (stdin w) of
        (Inl e, w1) \<Rightarrow> (Inl e, w1)
      | (Inr mark, w1) \<Rightarrow>
          (case read_marks int_of subs w1 of
             (Inl e, w2) \<Rightarrow> (Inl e, w2)
           | (Inr marks, w2) \<Rightarrow> (Inr (mark # marks), w2)))"

text \<open>The dict \<^verbatim>\<open>new_student\<close>: the name, then one entry per subject.\<close>

definition new_student :: "string \<Rightarrow> int list \<Rightarrow> (string \<times> cell) list" where
  "new_student name marks = (''Name'', StrV name) # zip SUBJECTS (map IntV marks)"

text \<open>
  Lines 51 to 54: the stored table, or a new one with the header columns when the file
  is absent or has zero bytes.
\<close>

definition load_or_new :: "world \<Rightarrow> exn + dataframe" where
  "load_or_new w =
     (case files w CSV_FILE of
        None \<Rightarrow> Inr (DataFrame (''Name'' # SUBJECTS))
      | Some c \<Rightarrow>
          (if \<not> st_size_zero c then read_csv c else Inr (DataFrame (''Name'' # SUBJECTS))))"

text \<open>Lines 56 to 59: append the record, write the whole table, confirm.\<close>

definition append_student :: "(string \<times> cell) list \<Rightarrow> world \<Rightarrow> (exn + unit) \<times> world" where
  "append_student d w =
     (case load_or_new w of
        Inl e \<Rightarrow> (Inl e, w)
      | Inr df \<Rightarrow>
          (Inr (), say ''Student added successfully!''
                     (to_csv (concat_frames df (frame_of_dict d)) CSV_FILE w)))"

definition add_student :: "(string \<Rightarrow> int option) \<Rightarrow> world \<Rightarrow> (exn + unit) \<times> world" where
  "add_student int_of w =
     (let w1 = prompt ''Enter student name: '' (say (CHR 0x0A # ''--- Add Student ---'') w)
      in case stdin w1 of
           [] \<Rightarrow> (Inl EOFError, w1)
         | name # rest \<Rightarrow>
             (case read_marks int_of SUBJECTS (w1\<lparr>stdin := rest\<rparr>) of
                (Inl e, w2) \<Rightarrow> (Inl e, w2)
              | (Inr marks, w2) \<Rightarrow> append_student (new_student name marks) w2))"

section \<open>Analysis\<close>

text \<open>
  \<^verbatim>\<open>df.apply(f, axis=1)\<close>: \<open>f\<close> on every row in stored order. What the calls print
  is kept in order; the first call that raises ends the whole \<^verbatim>\<open>apply\<close>.
\<close>

fun df_apply :: "(series \<Rightarrow> (exn + pynum) \<times> event list) \<Rightarrow> series list
                  \<Rightarrow> (exn + pynum list) \<times> event list" where
  "df_apply f [] = (Inr [], [])"
| "df_apply f (r # rs) =
     (case f r of
        (Inl e, evs) \<Rightarrow> (Inl e, evs)
      | (Inr p, evs) \<Rightarrow>
          (case df_apply f rs of
             (Inl e, evs') \<Rightarrow> (Inl e, evs @ evs')
           | (Inr ps, evs') \<Rightarrow> (Inr (p # ps), evs @ evs')))"

text \<open>
  \<^verbatim>\<open>idxmax\<close> and \<^verbatim>\<open>idxmin\<close> skip \<^verbatim>\<open>nan\<close> and scan from the first row on; a later
  row replaces the best one so far only when it is strictly better, so of several equal
  extremes the first is returned. On a column of \<^verbatim>\<open>nan\<close> only, the call (or the
  \<^verbatim>\<open>df.loc\<close> that takes its result) raises; the exception is taken to be
  \<^verbatim>\<open>ValueError\<close>.
\<close>

fun argbest :: "(rat \<Rightarrow> rat \<Rightarrow> bool) \<Rightarrow> pynum list \<Rightarrow> nat \<Rightarrow> (nat \<times> rat) option
                  \<Rightarrow> (nat \<times> rat) option" where
  "argbest better [] i best = best"
| "argbest better (NaN # ps) i best = argbest better ps (Suc i) best"
| "argbest better (Fin x # ps) i best =
     argbest better ps (Suc i)
       (case best of
          None \<Rightarrow> Some (i, x)
        | Some (j, y) \<Rightarrow> if better x y then Some (i, x) else Some (j, y))"

definition idxmax :: "pynum list \<Rightarrow> exn + nat" where
  "idxmax ps =
     (case argbest (\<lambda>x y. y < x) ps 0 None of None \<Rightarrow> Inl ValueError | Some (i, m) \<Rightarrow> Inr i)"

definition idxmin :: "pynum list \<Rightarrow> exn + nat" where
  "idxmin ps =
     (case argbest (\<lambda>x y. x < y) ps 0 None of None \<Rightarrow> Inl ValueError | Some (i, m) \<Rightarrow> Inr i)"

text \<open>
  The table during analysis: the stored columns (subjects filled in), with the computed
  columns \<^verbatim>\<open>Percentage\<close> and \<^verbatim>\<open>Grade\<close> kept beside them.
\<close>

record analysis =
  frame :: dataframe
  percentages :: "pynum list"
  grades :: "string list"

text \<open>\<^verbatim>\<open>df.loc[i]\<close>: the row with label \<open>i\<close>; a label that no row has raises \<^verbatim>\<open>KeyError\<close>.\<close>

definition loc :: "analysis \<Rightarrow> nat \<Rightarrow> exn + (series \<times> pynum \<times> string)" where
  "loc a i =
     (if i < length (rows (frame a)) \<and> i < length (percentages a) \<and> i < length (grades a)
      then Inr (row_series (frame a) (rows (frame a) ! i), percentages a ! i, grades a ! i)
      else Inl KeyError)"

definition topper :: "analysis \<Rightarrow> exn + (series \<times> pynum \<times> string)" where
  "topper a = (case idxmax (percentages a) of Inl e \<Rightarrow> Inl e | Inr i \<Rightarrow> loc a i)"

definition duller :: "analysis \<Rightarrow> exn + (series \<times> pynum \<times> string)" where
  "duller a = (case idxmin (percentages a) of Inl e \<Rightarrow> Inl e | Inr i \<Rightarrow> loc a i)"

text \<open>
  Means skip \<^verbatim>\<open>nan\<close>, and the mean of no value is \<^verbatim>\<open>nan\<close>. The \<^verbatim>\<open>.round(2)\<close> of a
  mean is modelled by \<open>py_round2\<close> on the exact mean; where the exact mean is a tie
  at the third decimal, the float may round the other way.
\<close>

fun finite_values :: "pynum list \<Rightarrow> rat list" where
  "finite_values [] = []"
| "finite_values (NaN # ps) = finite_values ps"
| "finite_values (Fin x # ps) = x # finite_values ps"

definition nan_mean :: "pynum list \<Rightarrow> pynum" where
  "nan_mean ps =
     (let xs = finite_values ps
      in if xs = [] then NaN else Fin (sum_list xs / of_nat (length xs)))"

definition nan_max :: "pynum list \<Rightarrow> pynum" where
  "nan_max ps = (case finite_values ps of [] \<Rightarrow> NaN | x # xs \<Rightarrow> Fin (fold max xs x))"

definition nan_min :: "pynum list \<Rightarrow> pynum" where
  "nan_min ps = (case finite_values ps of [] \<Rightarrow> NaN | x # xs \<Rightarrow> Fin (fold min xs x))"

definition cell_num :: "cell \<Rightarrow> exn + pynum" where
  "cell_num c = (case c of IntV m \<Rightarrow> Inr (Fin (of_int m)) | NaNV \<Rightarrow> Inr NaN | StrV s \<Rightarrow> Inl TypeError)"

fun collect :: "(exn + 'a) list \<Rightarrow> exn + 'a list" where
  "collect [] = Inr []"
| "collect (Inl e # xs) = Inl e"
| "collect (Inr x # xs) = (case collect xs of Inl e \<Rightarrow> Inl e | Inr ys \<Rightarrow> Inr (x # ys))"

definition column_mean :: "dataframe \<Rightarrow> string \<Rightarrow> exn + pynum" where
  "column_mean df c =
     (case collect (map (\<lambda>r. case getitem (row_series df r) c of
                               Inl e \<Rightarrow> Inl e | Inr v \<Rightarrow> cell_num v) (rows df)) of
        Inl e \<Rightarrow> Inl e
      | Inr ps \<Rightarrow> Inr (nan_mean ps))"

text \<open>\<^verbatim>\<open>df[SUBJECTS].mean()\<close>: selecting a column that the table lacks raises \<^verbatim>\<open>KeyError\<close>.\<close>

definition subject_means :: "dataframe \<Rightarrow> exn + pynum list" where
  "subject_means df =
     (if \<not> set SUBJECTS \<subseteq> set (columns df) then Inl KeyError
      else collect (map (column_mean df) SUBJECTS))"

text \<open>\<^verbatim>\<open>df['Grade'].value_counts().sort_index()\<close>: each grade that occurs, with its count.\<close>

definition grade_counts :: "string list \<Rightarrow> (string \<times> nat) list" where
  "grade_counts gs = map (\<lambda>g. (g, count_list gs g)) (sort (remdups gs))"

definition savefig :: "string \<Rightarrow> chart \<Rightarrow> world \<Rightarrow> world" where
  "savefig path c w = w\<lparr>files := (files w)(path \<mapsto> Image c)\<rparr>"

subsection \<open>The four views of the submenu\<close>

text \<open>Choice 1. The heading is printed before the column selection can raise.\<close>

definition view_all :: "analysis \<Rightarrow> world \<Rightarrow> (exn + unit) \<times> world" where
  "view_all a w =
     (let w1 = say (CHR 0x0A # ''All Students:'') w; df = frame a
      in if \<not> set (''Name'' # SUBJECTS) \<subseteq> set (columns df) then (Inl KeyError, w1)
         else (Inr (),
               w1\<lparr>stdout := stdout w1 @
                  [Print_Table (''Name'' # SUBJECTS @ [''Percentage'', ''Grade''])
                     (map (\<lambda>(r, p, g). map Cell (reindex (columns df) (''Name'' # SUBJECTS) r)
                                           @ [Num p, Lit g])
                        (zip (rows df) (zip (percentages a) (grades a))))]\<rparr>))"

text \<open>Choice 2.\<close>

definition subject_averages :: "analysis \<Rightarrow> world \<Rightarrow> (exn + unit) \<times> world" where
  "subject_averages a w =
     (case subject_means (frame a) of
        Inl e \<Rightarrow> (Inl e, w)
      | Inr ms \<Rightarrow>
          (Inr (),
           say (''Graph saved as '' @ [CHR 0x27] @ ''subject_averages.png'' @ [CHR 0x27])
             (savefig ''subject_averages.png'' (Bar_Chart (zip SUBJECTS (map py_round2 ms))) w)))"

text \<open>
  Choice 3. Both rows are looked up before anything is printed; the four lines of a row
  are printed in turn, and \<^verbatim>\<open>row['Name']\<close> raises after the heading when the table
  has no \<^verbatim>\<open>Name\<close> column.
\<close>

definition report_student :: "string \<Rightarrow> series \<times> pynum \<times> string \<Rightarrow> world \<Rightarrow> (exn + unit) \<times> world" where
  "report_student title s w =
     (let w1 = say (CHR 0x0A # ''--- '' @ title @ '' ---'') w
      in case getitem (fst s) ''Name'' of
           Inl e \<Rightarrow> (Inl e, w1)
         | Inr n \<Rightarrow>
             (Inr (),
              py_print [Lit ''Grade: '', Lit (snd (snd s))]
                (py_print [Lit ''Percentage: '', Num (fst (snd s)), Lit ''%'']
                   (py_print [Lit ''Name: '', Cell n] w1))))"

definition topper_and_duller :: "analysis \<Rightarrow> world \<Rightarrow> (exn + unit) \<times> world" where
  "topper_and_duller a w =
     (if 0 < length (rows (frame a)) then
        (case topper a of
           Inl e \<Rightarrow> (Inl e, w)
         | Inr t \<Rightarrow>
             (case duller a of
                Inl e \<Rightarrow> (Inl e, w)
              | Inr d \<Rightarrow>
                  (case report_student ''TOPPER'' t w of
                     (Inl e, w1) \<Rightarrow> (Inl e, w1)
                   | (Inr u, w1) \<Rightarrow> report_student ''DULLER'' d w1)))
      else (Inr (), say ''No students to analyze!'' w))"

text \<open>Choice 4.\<close>

definition class_statistics :: "analysis \<Rightarrow> world \<Rightarrow> (exn + unit) \<times> world" where
  "class_statistics a w =
     (if 0 < length (rows (frame a)) then
        (let class_avg = py_round2 (nan_mean (percentages a))
         in case subject_means (frame a) of
              Inl e \<Rightarrow> (Inl e, w)
            | Inr ms \<Rightarrow>
                (let highest_avg = py_round2 (nan_max ms);
                     lowest_avg = py_round2 (nan_min ms);
                     w1 = py_print [Lit (CHR 0x0A # ''Class Average Percentage: ''), Num class_avg, Lit ''%''] w;
                     w2 = py_print [Lit ''Class Overall Grade: '', Lit (assign_grade class_avg)] w1;
                     w3 = py_print [Lit ''Highest Subject Average: '', Num highest_avg] w2;
                     w4 = py_print [Lit ''Lowest Subject Average: '', Num lowest_avg] w3;
                     w5 = savefig ''grade_distribution.png'' (Pie_Chart (grade_counts (grades a))) w4
                 in (Inr (),
                     say (''Grade distribution chart saved as '' @ [CHR 0x27]
                            @ ''grade_distribution.png'' @ [CHR 0x27]) w5)))
      else (Inr (), say ''No students to analyze!'' w))"

subsection \<open>The submenu and \<^verbatim>\<open>analyze_performance\<close>\<close>

definition print_menu :: "world \<Rightarrow> world" where
  "print_menu w =
     prompt ''Enter choice (1-5): ''
       (say ''5. Back to Main Menu''
         (say ''4. Class Statistics''
           (say ''3. Find Topper and Duller''
             (say ''2. Subject-wise Averages''
               (say ''1. View All Students''
                 (say (CHR 0x0A # ''--- Performance Analysis ---'') w))))))"

text \<open>
  The \<^verbatim>\<open>while True\<close> loop of the submenu, on the lines still unread (the world's
  \<open>stdin\<close>). An exception ends the loop: the \<^verbatim>\<open>try\<close> is around the loop, not inside.
\<close>

fun menu_loop :: "analysis \<Rightarrow> world \<Rightarrow> string list \<Rightarrow> (exn + unit) \<times> world" where
  "menu_loop a w [] = (Inl EOFError, print_menu w)"
| "menu_loop a w (choice # rest) =
     (let w1 = (print_menu w)\<lparr>stdin := rest\<rparr>
      in if choice = ''1'' then
           (case view_all a w1 of (Inl e, w2) \<Rightarrow> (Inl e, w2) | (Inr u, w2) \<Rightarrow> menu_loop a w2 rest)
         else if choice = ''2'' then
           (case subject_averages a w1 of
              (Inl e, w2) \<Rightarrow> (Inl e, w2) | (Inr u, w2) \<Rightarrow> menu_loop a w2 rest)
         else if choice = ''3'' then
           (case topper_and_duller a w1 of
              (Inl e, w2) \<Rightarrow> (Inl e, w2) | (Inr u, w2) \<Rightarrow> menu_loop a w2 rest)
         else if choice = ''4'' then
           (case class_statistics a w1 of
              (Inl e, w2) \<Rightarrow> (Inl e, w2) | (Inr u, w2) \<Rightarrow> menu_loop a w2 rest)
         else if choice = ''5'' then (Inr (), w1)
         else menu_loop a (say ''Invalid choice! Please enter 1-5'' w1) rest)"

text \<open>Lines 106 to 108: the two computed columns.\<close>

definition derive :: "dataframe \<Rightarrow> (exn + analysis) \<times> event list" where
  "derive df =
     (case df_apply calculate_percentage (map (row_series df) (rows df)) of
        (Inl e, evs) \<Rightarrow> (Inl e, evs)
      | (Inr ps, evs) \<Rightarrow>
          (Inr \<lparr>frame = df, percentages = ps, grades = map assign_grade ps\<rparr>, evs))"

text \<open>
  Lines 90 to 108, the part of the \<^verbatim>\<open>try\<close> before the submenu: \<open>None\<close> when a
  no-data message was printed and the function returns, \<open>Some a\<close> with the table that
  the submenu will work on otherwise.
\<close>

definition prepare :: "world \<Rightarrow> (exn + analysis option) \<times> world" where
  "prepare w =
     (case files w CSV_FILE of
        None \<Rightarrow> (Inr None, say ''No data found! Add students first.'' w)
      | Some c \<Rightarrow>
          (if st_size_zero c then (Inr None, say ''No data found! Add students first.'' w)
           else
             (case read_csv c of
                Inl e \<Rightarrow> (Inl e, w)
              | Inr df0 \<Rightarrow>
                  (if df_empty df0 then (Inr None, say ''No student records found!'' w)
                   else
                     (case derive (ensure_columns SUBJECTS df0) of
                        (Inl e, evs) \<Rightarrow> (Inl e, w\<lparr>stdout := stdout w @ evs\<rparr>)
                      | (Inr a, evs) \<Rightarrow> (Inr (Some a), w\<lparr>stdout := stdout w @ evs\<rparr>))))))"

text \<open>The body of the \<^verbatim>\<open>try\<close> of \<^verbatim>\<open>analyze_performance\<close>.\<close>

definition analyze_body :: "world \<Rightarrow> (exn + unit) \<times> world" where
  "analyze_body w =
     (case prepare w of
        (Inl e, w1) \<Rightarrow> (Inl e, w1)
      | (Inr None, w1) \<Rightarrow> (Inr (), w1)
      | (Inr (Some a), w1) \<Rightarrow> menu_loop a w1 (stdin w1))"

text \<open>\<^verbatim>\<open>except Exception as e\<close>: whatever the body raises is reported, and the call returns.\<close>

definition analyze_performance :: "world \<Rightarrow> (exn + unit) \<times> world" where
  "analyze_performance w =
     (case analyze_body w of
        (Inl e, w1) \<Rightarrow> (Inr (), py_print [Lit ''An error occurred during analysis: '', Exn e] w1)
      | (Inr u, w1) \<Rightarrow> (Inr (), w1))"

section \<open>Vocabulary of the properties\<close>

text \<open>The mark a row holds for a subject, read as an integer (0 when it holds none).\<close>

definition mark :: "series \<Rightarrow> string \<Rightarrow> int" where
  "mark row sub = (case map_of row sub of Some (IntV m) \<Rightarrow> m | _ \<Rightarrow> 0)"

text \<open>Every subject of the row holds an integer mark in \<open>[0, 100]\<close>.\<close>

definition marks_in_range :: "series \<Rightarrow> bool" where
  "marks_in_range row =
     list_all (\<lambda>sub. case map_of row sub of Some (IntV m) \<Rightarrow> 0 \<le> m \<and> m \<le> 100 | _ \<Rightarrow> False)
       SUBJECTS"

text \<open>
  A record in which the label of some subject is absent, and a record none of whose
  subject marks is a text.
\<close>

definition lacks_subject :: "series \<Rightarrow> bool" where
  "lacks_subject row = list_ex (\<lambda>sub. map_of row sub = None) SUBJECTS"

definition no_text_marks :: "series \<Rightarrow> bool" where
  "no_text_marks row =
     list_all (\<lambda>sub. case map_of row sub of Some (StrV s) \<Rightarrow> False | _ \<Rightarrow> True) SUBJECTS"

text \<open>
  Vocabulary for the tie rule: \<open>m\<close> is the largest (smallest) of the percentages that
  are numbers; the value \<open>p\<close> stands at position \<open>i\<close> and nowhere before it. The
  scan of \<open>argbest\<close> is studied for any total order \<open>le\<close> with \<open>better x y\<close> the
  negation of \<open>le x y\<close>, so that \<^verbatim>\<open>idxmax\<close> and \<^verbatim>\<open>idxmin\<close> share one proof.
\<close>

definition scan_order :: "(rat \<Rightarrow> rat \<Rightarrow> bool) \<Rightarrow> (rat \<Rightarrow> rat \<Rightarrow> bool) \<Rightarrow> bool" where
  "scan_order le better =
     ((\<forall>x. le x x) \<and> (\<forall>x y z. le x y \<longrightarrow> le y z \<longrightarrow> le x z) \<and> (\<forall>x y. le x y \<or> le y x)
      \<and> (\<forall>x y. le x y \<longrightarrow> le y x \<longrightarrow> x = y) \<and> (\<forall>x y. better x y \<longleftrightarrow> \<not> le x y))"

definition is_max :: "rat \<Rightarrow> pynum list \<Rightarrow> bool" where
  "is_max m ps = list_all (\<lambda>p. case p of NaN \<Rightarrow> True | Fin x \<Rightarrow> x \<le> m) ps"

definition is_min :: "rat \<Rightarrow> pynum list \<Rightarrow> bool" where
  "is_min m ps = list_all (\<lambda>p. case p of NaN \<Rightarrow> True | Fin x \<Rightarrow> m \<le> x) ps"

definition first_at :: "nat \<Rightarrow> pynum \<Rightarrow> pynum list \<Rightarrow> bool" where
  "first_at i p ps = (i < length ps \<and> ps ! i = p \<and> p \<notin> set (take i ps))"




text \<open>
  The marks that \<^verbatim>\<open>add_student\<close> accepts from the lines typed after the name: the
  lines that \<^verbatim>\<open>int\<close> reads as an integer in \<open>[0, 100]\<close>, in the order typed; every
  other line is answered by a message and asked again.
\<close>

fun accepted_marks :: "(string \<Rightarrow> int option) \<Rightarrow> string list \<Rightarrow> int list" where
  "accepted_marks int_of [] = []"
| "accepted_marks int_of (line # lines) =
     (case int_of line of
        None \<Rightarrow> accepted_marks int_of lines
      | Some m \<Rightarrow>
          (if 0 \<le> m \<and> m \<le> 100 then m # accepted_marks int_of lines
           else accepted_marks int_of lines))"




section \<open>Example data\<close>


definition asha :: series where
  "asha = [(''Name'', StrV ''Asha''), (''Machine Learning'', IntV 80), (''UHV'', IntV 75),
           (''DMGT'', IntV 91), (''DBMS'', IntV 64), (''OT'', IntV 100), (''ES'', IntV 0)]"

definition tied_class :: dataframe where
  "tied_class =
     \<lparr>columns = ''Name'' # SUBJECTS,
      rows = [StrV ''Ravi'' # replicate 6 (IntV 60),
              StrV ''Meena'' # replicate 6 (IntV 80),
              StrV ''Kiran'' # replicate 6 (IntV 80),
              StrV ''Latha'' # replicate 6 (IntV 60)]\<rparr>"

definition tied_analysis :: analysis where
  "tied_analysis =
     \<lparr>frame = tied_class,
      percentages = [Fin 60, Fin 80, Fin 80, Fin 60],
      grades = [''B'', ''A'', ''A'', ''B'']\<rparr>"

definition fresh_world :: world where
  "fresh_world = \<lparr>stdin = [''3'', ''5''], stdout = [], files = Map.empty\<rparr>"

definition world_with :: "content \<Rightarrow> world" where
  "world_with c = \<lparr>stdin = [''3'', ''5''], stdout = [], files = [CSV_FILE \<mapsto> c]\<rparr>"

definition bala :: series where
  "bala = [(''Name'', StrV ''Bala''), (''Machine Learning'', IntV 70), (''UHV'', IntV 55),
           (''DMGT'', IntV 82), (''DBMS'', IntV 64), (''ES'', IntV 91)]"








section \<open>Percentage\<close>

lemma py_sum_int_marks:
  assumes "\<forall>sub\<in>set subs. \<exists>m. map_of row sub = Some (IntV m)"
  shows "py_sum row subs (Fin a) = Inr (Fin (a + of_int (\<Sum>sub\<leftarrow>subs. mark row sub)))"
  using assms
proof (induction subs arbitrary: a)
  case Nil
  then show ?case by simp
next
  case (Cons sub subs)
  from Cons.prems obtain m where m: "map_of row sub = Some (IntV m)"
    by auto
  have rest: "\<forall>s\<in>set subs. \<exists>m. map_of row s = Some (IntV m)"
    using Cons.prems by simp
  show ?case
    using Cons.IH [OF rest, of "a + of_int m"] m
    by (simp add: getitem_def mark_def add.assoc)
qed

lemma marks_in_range_int:
  "marks_in_range row \<Longrightarrow> \<forall>sub\<in>set SUBJECTS. \<exists>m. map_of row sub = Some (IntV m)"
proof (intro ballI)
  fix sub
  assume "marks_in_range row" and "sub \<in> set SUBJECTS"
  then have "case map_of row sub of Some (IntV m) \<Rightarrow> 0 \<le> m \<and> m \<le> 100 | _ \<Rightarrow> False"
    by (simp add: marks_in_range_def list_all_iff)
  then show "\<exists>m. map_of row sub = Some (IntV m)"
    by (cases "map_of row sub") (auto split: cell.splits)
qed

lemma sum_list_perm:
  fixes f :: "'a \<Rightarrow> int"
  assumes "mset xs = mset ys"
  shows "(\<Sum>x\<leftarrow>xs. f x) = (\<Sum>x\<leftarrow>ys. f x)"
proof -
  have "sum_mset (mset (map f xs)) = sum_mset (mset (map f ys))"
    using assms by (metis mset_map)
  then show ?thesis
    by (simp only: sum_mset_sum_list)
qed

lemma percentage_over_int_marks:
  assumes "\<forall>sub\<in>set subs. \<exists>m. map_of row sub = Some (IntV m)" and "subs \<noteq> []"
  shows "percentage_over subs row =
           (Inr (py_round2 (Fin (of_int (\<Sum>sub\<leftarrow>subs. mark row sub)
                                  / of_int (int (length subs) * 100) * 100))), [])"
  using assms(2) py_sum_int_marks [OF assms(1), of 0]
  by (simp add: percentage_over_def percentage_body_def py_truediv_def py_mul_def)

text \<open>
  The quotient rounded by \<^verbatim>\<open>calculate_percentage\<close> is a whole number of thirds of a
  hundredth, so its distance to the next hundredth below is 0, 1/3 or 2/3 of a hundredth
  and never the tie 1/2: the rounded percentage is \<open>(100 * total + 3) div 6\<close> hundredths.
\<close>

lemma round_half_even_sixth:
  "round_half_even (of_int t / (6 * 100) * 100 * 100) = (t * 100 + 3) div 6"
proof -
  define n where "n = 50 * t"
  have x: "(of_int t :: rat) / (6 * 100) * 100 * 100 = of_int n / of_int 3"
    by (simp add: n_def)
  have fl: "\<lfloor>(of_int n :: rat) / of_int 3\<rfloor> = n div 3"
    by (rule floor_divide_of_int_eq)
  have d: "(of_int n :: rat) / of_int 3 - of_int (n div 3) = of_int (n mod 3) / 3"
  proof -
    have "of_int n = (of_int (3 * (n div 3) + n mod 3) :: rat)"
      by simp
    also have "\<dots> = 3 * of_int (n div 3) + of_int (n mod 3)"
      by (simp only: of_int_add of_int_mult of_int_numeral)
    finally show ?thesis
      by (simp add: field_simps)
  qed
  have "0 \<le> n mod 3" "n mod 3 < 3"
    by simp_all
  then have r: "n mod 3 = 0 \<or> n mod 3 = 1 \<or> n mod 3 = 2"
    by linarith
  have "t * 100 + 3 = (2 * (n mod 3) + 3) + 6 * (n div 3)"
  proof -
    have "n = 3 * (n div 3) + n mod 3"
      by simp
    then have "2 * n + 3 = (2 * (n mod 3) + 3) + 6 * (n div 3)"
      by linarith
    then show ?thesis
      by (simp add: n_def)
  qed
  then have "(t * 100 + 3) div 6 = (2 * (n mod 3) + 3) div 6 + n div 3"
    by (simp only: div_mult_self2)
  with r have goal: "(t * 100 + 3) div 6 = (if n mod 3 = 2 then n div 3 + 1 else n div 3)"
    by auto
  have "round_half_even (of_int n / of_int 3) = (if n mod 3 = 2 then n div 3 + 1 else n div 3)"
    using r unfolding round_half_even_def Let_def fl d
    by auto
  then show ?thesis
    unfolding x goal .
qed

lemma calculate_percentage_hundredths:
  assumes "marks_in_range row"
  shows "calculate_percentage row =
           (Inr (Fin (of_int (((\<Sum>sub\<leftarrow>SUBJECTS. mark row sub) * 100 + 3) div 6) / 100)), [])"
proof -
  have ints: "\<forall>sub\<in>set SUBJECTS. \<exists>m. map_of row sub = Some (IntV m)"
    using assms by (rule marks_in_range_int)
  have "length SUBJECTS = 6" "SUBJECTS \<noteq> []"
    by (simp_all add: SUBJECTS_def)
  with percentage_over_int_marks [OF ints] show ?thesis
    using round_half_even_sixth [of "\<Sum>sub\<leftarrow>SUBJECTS. mark row sub"]
    by (simp add: calculate_percentage_def py_round2_def)
qed

text \<open>
  C1. When each of the six subject marks of a row is an integer in \<open>[0, 100]\<close>,
  \<^verbatim>\<open>calculate_percentage\<close> returns \<open>round(sum / (6 * 100) * 100, 2)\<close>, prints
  nothing, and the result is the same whatever order the six subjects are listed in.
\<close>

theorem calculate_percentage_exact:
  assumes "marks_in_range row"
  shows "calculate_percentage row =
           (Inr (py_round2 (Fin (of_int (\<Sum>sub\<leftarrow>SUBJECTS. mark row sub) / (6 * 100) * 100))), [])
         \<and> (\<forall>subs. mset subs = mset SUBJECTS \<longrightarrow>
               percentage_over subs row = calculate_percentage row)"
proof -
  have ints: "\<forall>sub\<in>set SUBJECTS. \<exists>m. map_of row sub = Some (IntV m)"
    using assms by (rule marks_in_range_int)
  have len: "length SUBJECTS = 6" and ne: "SUBJECTS \<noteq> []"
    by (simp_all add: SUBJECTS_def)
  have val: "calculate_percentage row =
      (Inr (py_round2 (Fin (of_int (\<Sum>sub\<leftarrow>SUBJECTS. mark row sub) / (6 * 100) * 100))), [])"
    unfolding calculate_percentage_def
    using percentage_over_int_marks [OF ints ne] by (simp add: len)
  have order: "percentage_over subs row = calculate_percentage row"
    if perm: "mset subs = mset SUBJECTS" for subs
  proof -
    have "set subs = set SUBJECTS"
      using perm by (rule mset_eq_setD)
    then have ints': "\<forall>sub\<in>set subs. \<exists>m. map_of row sub = Some (IntV m)"
      using ints by simp
    have len': "length subs = 6"
      using mset_eq_length [OF perm] len by simp
    then have ne': "subs \<noteq> []"
      by auto
    have "(\<Sum>sub\<leftarrow>subs. mark row sub) = (\<Sum>sub\<leftarrow>SUBJECTS. mark row sub)"
      using perm by (rule sum_list_perm)
    then show ?thesis
      using percentage_over_int_marks [OF ints' ne'] val by (simp add: len')
  qed
  from val order show ?thesis
    by blast
qed

theorem calculate_percentage_exact_witness:
  "marks_in_range asha
   \<and> calculate_percentage asha = (Inr (Fin (6833 / 100)), [])
   \<and> percentage_over (rev SUBJECTS) asha = calculate_percentage asha"
proof -
  have h: "marks_in_range asha"
    by code_simp
  have v: "py_round2 (Fin (of_int (\<Sum>sub\<leftarrow>SUBJECTS. mark asha sub) / (6 * 100) * 100))
             = Fin (6833 / 100)"
    by code_simp
  have p: "mset (rev SUBJECTS) = mset SUBJECTS"
    by simp
  from calculate_percentage_exact [OF h] v p h show ?thesis
    by simp
qed

section \<open>Grade\<close>

text \<open>
  C2. \<^verbatim>\<open>assign_grade\<close> is a step function with the thresholds tested from the highest
  down: a percentage \<open>p\<close> gets \<open>A+\<close> exactly when \<open>p \<ge> 90\<close>, \<open>A\<close> exactly when
  \<open>80 \<le> p < 90\<close>, \<open>B+\<close> exactly when \<open>70 \<le> p < 80\<close>, \<open>B\<close> exactly when
  \<open>60 \<le> p < 70\<close>, \<open>C\<close> exactly when \<open>50 \<le> p < 60\<close>, \<open>D\<close> exactly when
  \<open>40 \<le> p < 50\<close> and \<open>F\<close> exactly when \<open>p < 40\<close>. So every percentage has one
  grade and the seven ranges do not overlap. The values 90, 80, 70, 60, 50 and 40 get
  \<open>A+\<close>, \<open>A\<close>, \<open>B+\<close>, \<open>B\<close>, \<open>C\<close> and \<open>D\<close>; 100 gets \<open>A+\<close>; 39.99 and 0 get \<open>F\<close>.
\<close>

theorem assign_grade_thresholds:
  "(assign_grade (Fin p) = ''A+'' \<longleftrightarrow> 90 \<le> p)
   \<and> (assign_grade (Fin p) = ''A'' \<longleftrightarrow> 80 \<le> p \<and> p < 90)
   \<and> (assign_grade (Fin p) = ''B+'' \<longleftrightarrow> 70 \<le> p \<and> p < 80)
   \<and> (assign_grade (Fin p) = ''B'' \<longleftrightarrow> 60 \<le> p \<and> p < 70)
   \<and> (assign_grade (Fin p) = ''C'' \<longleftrightarrow> 50 \<le> p \<and> p < 60)
   \<and> (assign_grade (Fin p) = ''D'' \<longleftrightarrow> 40 \<le> p \<and> p < 50)
   \<and> (assign_grade (Fin p) = ''F'' \<longleftrightarrow> p < 40)
   \<and> map (\<lambda>q. assign_grade (Fin q)) [90, 80, 70, 60, 50, 40, 100, 3999 / 100, 0]
        = [''A+'', ''A'', ''B+'', ''B'', ''C'', ''D'', ''A+'', ''F'', ''F'']"
  by (simp add: assign_grade_def py_ge_def)

theorem assign_grade_thresholds_witness:
  "assign_grade (Fin (8567 / 100)) = ''A'' \<and> assign_grade (Fin (3999 / 100)) = ''F''"
  using assign_grade_thresholds [of "8567 / 100"] assign_grade_thresholds [of "3999 / 100"]
  by simp

section \<open>Topper and duller\<close>

lemma argbest_Some: "\<exists>r. argbest better ps i (Some b) = Some r"
proof (induction ps arbitrary: i b)
  case Nil
  then show ?case by simp
next
  case (Cons p ps)
  then show ?case by (cases p; cases b) auto
qed

lemma argbest_finite:
  "finite_values ps \<noteq> [] \<Longrightarrow> \<exists>r. argbest better ps i None = Some r"
proof (induction ps arbitrary: i)
  case Nil
  then show ?case by simp
next
  case (Cons p ps)
  then show ?case using argbest_Some by (cases p) auto
qed

lemma argbest_bound:
  assumes ord: "scan_order le better" and r: "argbest better ps i best = Some (k, m)"
  shows "(\<forall>j y. best = Some (j, y) \<longrightarrow> le y m) \<and> (\<forall>x. Fin x \<in> set ps \<longrightarrow> le x m)"
proof -
  have refl: "\<And>x. le x x"
    and trans: "\<And>x y z. le x y \<Longrightarrow> le y z \<Longrightarrow> le x z"
    and total: "\<And>x y. le x y \<or> le y x"
    and better: "\<And>x y. better x y \<longleftrightarrow> \<not> le x y"
    using ord unfolding scan_order_def by blast+
  from r show ?thesis
  proof (induction ps arbitrary: i best)
    case Nil
    then show ?case by (simp add: refl)
  next
    case (Cons p ps)
    show ?case
    proof (cases p)
      case NaN
      with Cons.prems have "argbest better ps (Suc i) best = Some (k, m)"
        by simp
      from Cons.IH [OF this] NaN show ?thesis
        by simp
    next
      case (Fin x)
      define best' where "best' = (case best of None \<Rightarrow> Some (i, x)
         | Some (j, y) \<Rightarrow> if better x y then Some (i, x) else Some (j, y))"
      from Cons.prems Fin have "argbest better ps (Suc i) best' = Some (k, m)"
        by (simp add: best'_def)
      from Cons.IH [OF this]
      have ih1: "\<forall>j y. best' = Some (j, y) \<longrightarrow> le y m" and ih2: "\<forall>x. Fin x \<in> set ps \<longrightarrow> le x m"
        by blast+
      have xm: "le x m"
      proof (cases best)
        case None
        then have "best' = Some (i, x)" by (simp add: best'_def)
        with ih1 show ?thesis by blast
      next
        case (Some jy)
        obtain j y where jy: "jy = (j, y)" by (cases jy)
        show ?thesis
        proof (cases "better x y")
          case True
          then have "best' = Some (i, x)" using Some jy by (simp add: best'_def)
          with ih1 show ?thesis by blast
        next
          case False
          then have "best' = Some (j, y)" using Some jy by (simp add: best'_def)
          with ih1 have "le y m" by blast
          moreover from False have "le x y" by (simp add: better)
          ultimately show ?thesis by (rule trans [rotated])
        qed
      qed
      have "le y m" if "best = Some (j, y)" for j y
      proof (cases "better x y")
        case True
        then have "le y x" using total [of x y] better by simp
        then show ?thesis using xm trans by blast
      next
        case False
        then show ?thesis using ih1 that by (simp add: best'_def)
      qed
      then have "\<forall>j y. best = Some (j, y) \<longrightarrow> le y m"
        by blast
      moreover have "\<forall>z. Fin z \<in> set (p # ps) \<longrightarrow> le z m"
        using xm ih2 Fin by simp
      ultimately show ?thesis
        by blast
    qed
  qed
qed

lemma argbest_first:
  assumes ord: "scan_order le better" and r: "argbest better ps i best = Some (k, m)"
  shows "best = Some (k, m)
         \<or> (i \<le> k \<and> k - i < length ps \<and> ps ! (k - i) = Fin m
            \<and> Fin m \<notin> set (take (k - i) ps)
            \<and> (\<forall>j y. best = Some (j, y) \<longrightarrow> \<not> le m y))"
proof -
  have refl: "\<And>x. le x x"
    and trans: "\<And>x y z. le x y \<Longrightarrow> le y z \<Longrightarrow> le x z"
    and total: "\<And>x y. le x y \<or> le y x"
    and better: "\<And>x y. better x y \<longleftrightarrow> \<not> le x y"
    using ord unfolding scan_order_def by blast+
  from r show ?thesis
  proof (induction ps arbitrary: i best)
    case Nil
    then show ?case by simp
  next
    case (Cons p ps)
    show ?case
    proof (cases p)
      case NaN
      with Cons.prems have "argbest better ps (Suc i) best = Some (k, m)"
        by simp
      from Cons.IH [OF this] show ?thesis
      proof
        assume "best = Some (k, m)"
        then show ?thesis by simp
      next
        assume r: "Suc i \<le> k \<and> k - Suc i < length ps \<and> ps ! (k - Suc i) = Fin m
              \<and> Fin m \<notin> set (take (k - Suc i) ps)
              \<and> (\<forall>j y. best = Some (j, y) \<longrightarrow> \<not> le m y)"
        then have "Suc i \<le> k"
          by blast
        then have "k - i = Suc (k - Suc i)"
          by arith
        with r NaN show ?thesis
          by simp
      qed
    next
      case (Fin x)
      define best' where "best' = (case best of None \<Rightarrow> Some (i, x)
         | Some (j, y) \<Rightarrow> if better x y then Some (i, x) else Some (j, y))"
      from Cons.prems Fin have "argbest better ps (Suc i) best' = Some (k, m)"
        by (simp add: best'_def)
      from Cons.IH [OF this] show ?thesis
      proof
        assume b: "best' = Some (k, m)"
        show ?thesis
        proof (cases best)
          case None
          with b Fin show ?thesis by (simp add: best'_def)
        next
          case (Some jy)
          obtain j y where jy: "jy = (j, y)" by (cases jy)
          show ?thesis
          proof (cases "better x y")
            case True
            then have "best' = Some (i, x)" using Some jy by (simp add: best'_def)
            with b have "k = i" "m = x" by simp_all
            moreover from True have "\<not> le x y" by (simp add: better)
            ultimately show ?thesis using Some jy Fin by simp
          next
            case False
            then have "best' = Some (j, y)" using Some jy by (simp add: best'_def)
            with b Some jy show ?thesis by simp
          qed
        qed
      next
        assume r: "Suc i \<le> k \<and> k - Suc i < length ps \<and> ps ! (k - Suc i) = Fin m
              \<and> Fin m \<notin> set (take (k - Suc i) ps)
              \<and> (\<forall>j y. best' = Some (j, y) \<longrightarrow> \<not> le m y)"
        then have "Suc i \<le> k"
          by blast
        then have k: "k - i = Suc (k - Suc i)"
          by arith
        have nb: "\<forall>j y. best' = Some (j, y) \<longrightarrow> \<not> le m y"
          using r by blast
        have xm: "x \<noteq> m"
        proof
          assume e: "x = m"
          show False
          proof (cases best)
            case None
            then have "best' = Some (i, x)" by (simp add: best'_def)
            with nb e refl [of m] show False by blast
          next
            case (Some jy)
            obtain j y where jy: "jy = (j, y)" by (cases jy)
            show False
            proof (cases "better x y")
              case True
              then have "best' = Some (i, x)" using Some jy by (simp add: best'_def)
              with nb e refl [of m] show False by blast
            next
              case False
              then have "best' = Some (j, y)" using Some jy by (simp add: best'_def)
              with nb have "\<not> le m y" by blast
              with False e show False by (simp add: better)
            qed
          qed
        qed
        have "\<not> le m y" if "best = Some (j, y)" for j y
        proof (cases "better x y")
          case True
          then have "le y x" using total [of x y] better by simp
          moreover have "\<not> le m x" using nb that True by (simp add: best'_def)
          ultimately show ?thesis using trans by blast
        next
          case False
          then show ?thesis using nb that by (simp add: best'_def)
        qed
        with r k xm Fin show ?thesis
          by simp
      qed
    qed
  qed
qed

lemma finite_values_mem: "Fin x \<in> set ps \<Longrightarrow> finite_values ps \<noteq> []"
proof (induction ps)
  case Nil
  then show ?case by simp
next
  case (Cons p ps)
  then show ?case by (cases p) auto
qed

lemma argbest_tie:
  assumes ord: "scan_order le better"
    and first: "first_at i (Fin m) ps"
    and best: "\<forall>x. Fin x \<in> set ps \<longrightarrow> le x m"
  shows "argbest better ps 0 None = Some (i, m)"
proof -
  have antisym: "\<And>x y. le x y \<Longrightarrow> le y x \<Longrightarrow> x = y"
    using ord unfolding scan_order_def by blast
  from first have i: "i < length ps" "ps ! i = Fin m" "Fin m \<notin> set (take i ps)"
    by (simp_all add: first_at_def)
  then have mem: "Fin m \<in> set ps"
    by (metis nth_mem)
  then obtain k m' where r: "argbest better ps 0 None = Some (k, m')"
    using argbest_finite [OF finite_values_mem] by (metis surj_pair)
  from argbest_bound [OF ord r] mem have "le m m'"
    by blast
  from argbest_first [OF ord r]
  have k: "k < length ps" "ps ! k = Fin m'" "Fin m' \<notin> set (take k ps)"
    by simp_all
  then have "Fin m' \<in> set ps"
    by (metis nth_mem)
  with best have "le m' m"
    by blast
  with \<open>le m m'\<close> have eq: "m' = m"
    using antisym by blast
  have "k = i"
  proof (rule ccontr)
    assume "k \<noteq> i"
    then consider "k < i" | "i < k"
      by arith
    then show False
    proof cases
      case 1
      then have "take i ps ! k = ps ! k" "k < length (take i ps)"
        using i(1) by simp_all
      then have "ps ! k \<in> set (take i ps)"
        using nth_mem by metis
      with k(2) eq i(3) show False by simp
    next
      case 2
      then have "take k ps ! i = ps ! i" "i < length (take k ps)"
        using k(1) by simp_all
      then have "ps ! i \<in> set (take k ps)"
        using nth_mem by metis
      with i(2) eq k(3) show False by simp
    qed
  qed
  with r eq show ?thesis
    by simp
qed

lemma idxmax_first_tie:
  assumes "first_at i (Fin m) ps" and "is_max m ps"
  shows "idxmax ps = Inr i"
proof -
  have "\<forall>x. Fin x \<in> set ps \<longrightarrow> x \<le> m"
    using assms(2) by (auto simp: is_max_def list_all_iff)
  moreover have "scan_order (\<le>) (\<lambda>x y :: rat. y < x)"
    by (auto simp: scan_order_def)
  ultimately have "argbest (\<lambda>x y. y < x) ps 0 None = Some (i, m)"
    using assms(1) by (intro argbest_tie)
  then show ?thesis
    by (simp add: idxmax_def)
qed

lemma idxmin_first_tie:
  assumes "first_at i (Fin m) ps" and "is_min m ps"
  shows "idxmin ps = Inr i"
proof -
  have "\<forall>x. Fin x \<in> set ps \<longrightarrow> m \<le> x"
    using assms(2) by (auto simp: is_min_def list_all_iff)
  moreover have "scan_order (\<ge>) (\<lambda>x y :: rat. x < y)"
    by (auto simp: scan_order_def)
  ultimately have "argbest (\<lambda>x y. x < y) ps 0 None = Some (i, m)"
    using assms(1) by (intro argbest_tie [where le = "(\<ge>)"])
  then show ?thesis
    by (simp add: idxmin_def)
qed

lemma df_apply_length:
  "df_apply f rs = (Inr ps, evs) \<Longrightarrow> length ps = length rs"
proof (induction rs arbitrary: ps evs)
  case Nil
  then show ?case by simp
next
  case (Cons r rs)
  obtain x e1 where fr: "f r = (x, e1)"
    by (cases "f r")
  obtain y e2 where rec: "df_apply f rs = (y, e2)"
    by (cases "df_apply f rs")
  from Cons.prems fr rec obtain p qs where "y = Inr qs" and "ps = p # qs"
    by (cases x; cases y) auto
  with Cons.IH rec show ?case
    by simp
qed

lemma derive_shape:
  assumes "derive df = (Inr a, evs)"
  shows "frame a = df \<and> length (percentages a) = length (rows df)
         \<and> grades a = map assign_grade (percentages a)"
proof -
  obtain y evs' where ap: "df_apply calculate_percentage (map (row_series df) (rows df)) = (y, evs')"
    by (cases "df_apply calculate_percentage (map (row_series df) (rows df))")
  with assms obtain ps where y: "y = Inr ps"
    and a: "a = \<lparr>frame = df, percentages = ps, grades = map assign_grade ps\<rparr>"
    by (cases y) (auto simp: derive_def)
  from df_apply_length [OF ap [unfolded y]] a show ?thesis
    by simp
qed

text \<open>
  C8. In a table whose percentages were computed by the analysis, let a record have the
  largest percentage and be the first in stored order to have it. Then the topper
  selection returns that record, whatever number of later records share the percentage.
  The same holds for the duller selection and the smallest percentage.
\<close>

theorem topper_duller_first_of_ties:
  assumes "derive df = (Inr a, evs)" and "first_at i (Fin m) (percentages a)"
  shows "(is_max m (percentages a) \<longrightarrow>
            topper a = Inr (row_series df (rows df ! i), Fin m, assign_grade (Fin m)))
         \<and> (is_min m (percentages a) \<longrightarrow>
            duller a = Inr (row_series df (rows df ! i), Fin m, assign_grade (Fin m)))"
proof -
  note shape = derive_shape [OF assms(1)]
  from assms(2) have i: "i < length (percentages a)" "percentages a ! i = Fin m"
    by (simp_all add: first_at_def)
  have row: "loc a i = Inr (row_series df (rows df ! i), Fin m, assign_grade (Fin m))"
    using shape i by (simp add: loc_def)
  show ?thesis
    using idxmax_first_tie [OF assms(2)] idxmin_first_tie [OF assms(2)] row
    by (simp add: topper_def duller_def)
qed

theorem topper_duller_first_of_ties_witness:
  "derive tied_class = (Inr tied_analysis, [])
   \<and> first_at 1 (Fin 80) (percentages tied_analysis) \<and> is_max 80 (percentages tied_analysis)
   \<and> topper tied_analysis = Inr (row_series tied_class (StrV ''Meena'' # replicate 6 (IntV 80)), Fin 80, ''A'')
   \<and> first_at 0 (Fin 60) (percentages tied_analysis) \<and> is_min 60 (percentages tied_analysis)
   \<and> duller tied_analysis = Inr (row_series tied_class (StrV ''Ravi'' # replicate 6 (IntV 60)), Fin 60, ''B'')"
proof -
  have d: "derive tied_class = (Inr tied_analysis, [])"
    by code_simp
  have t: "first_at 1 (Fin 80) (percentages tied_analysis)" "is_max 80 (percentages tied_analysis)"
    by code_simp+
  have u: "first_at 0 (Fin 60) (percentages tied_analysis)" "is_min 60 (percentages tied_analysis)"
    by code_simp+
  have r: "rows tied_class ! 1 = StrV ''Meena'' # replicate 6 (IntV 80)"
    "rows tied_class ! 0 = StrV ''Ravi'' # replicate 6 (IntV 60)"
    by (simp_all add: tied_class_def)
  have g: "assign_grade (Fin 80) = ''A''" "assign_grade (Fin 60) = ''B''"
    by code_simp+
  from topper_duller_first_of_ties [OF d t(1)] topper_duller_first_of_ties [OF d u(1)] d t u r g
  show ?thesis
    by simp
qed

section \<open>Analysis and the store\<close>

lemma files_say [simp]: "files (say s w) = files w"
  by (simp add: say_def py_print_def)

lemma files_py_print [simp]: "files (py_print ps w) = files w"
  by (simp add: py_print_def)

lemma files_prompt [simp]: "files (prompt s w) = files w"
  by (simp add: prompt_def)

lemma files_print_menu [simp]: "files (print_menu w) = files w"
  by (simp add: print_menu_def)

lemma savefig_other: "path \<noteq> p \<Longrightarrow> files (savefig path c w) p = files w p"
  by (simp add: savefig_def)

lemma view_all_csv: "files (snd (view_all a w)) = files w"
  by (simp add: view_all_def Let_def)

lemma subject_averages_csv: "files (snd (subject_averages a w)) CSV_FILE = files w CSV_FILE"
  by (simp add: subject_averages_def savefig_other CSV_FILE_def split: sum.split)

lemma report_student_csv: "files (snd (report_student title s w)) = files w"
  by (simp add: report_student_def Let_def split: sum.split)

lemma topper_and_duller_csv: "files (snd (topper_and_duller a w)) = files w"
proof -
  have "files (snd (case report_student ''TOPPER'' t w of
                      (Inl e, w1) \<Rightarrow> (Inl e, w1)
                    | (Inr u, w1) \<Rightarrow> report_student ''DULLER'' d w1)) = files w" for t d
  proof (cases "report_student ''TOPPER'' t w")
    case (Pair x w1)
    then have "files w1 = files w"
      using report_student_csv [of "''TOPPER''" t w] by simp
    with Pair show ?thesis
      by (cases x) (simp_all add: report_student_csv)
  qed
  then show ?thesis
    by (simp add: topper_and_duller_def split: sum.split)
qed

lemma class_statistics_csv: "files (snd (class_statistics a w)) CSV_FILE = files w CSV_FILE"
  by (simp add: class_statistics_def Let_def savefig_other CSV_FILE_def split: sum.split)

lemma menu_loop_csv: "files (snd (menu_loop a w lines)) CSV_FILE = files w CSV_FILE"
proof (induction lines arbitrary: w)
  case Nil
  then show ?case by simp
next
  case (Cons choice rest)
  define w1 where "w1 = (print_menu w)\<lparr>stdin := rest\<rparr>"
  have w1: "files w1 = files w"
    by (simp add: w1_def)
  have step: "files (snd (case act w1 of (Inl e, w2) \<Rightarrow> (Inl e, w2)
                          | (Inr u, w2) \<Rightarrow> menu_loop a w2 rest)) CSV_FILE = files w CSV_FILE"
    if "\<And>v. files (snd (act v)) CSV_FILE = files v CSV_FILE"
    for act :: "world \<Rightarrow> (exn + unit) \<times> world"
  proof (cases "act w1")
    case (Pair x w2)
    then have "files w2 CSV_FILE = files w CSV_FILE"
      using that [of w1] w1 by simp
    with Pair Cons.IH [of w2] show ?thesis
      by (cases x) simp_all
  qed
  show ?case
    using step [of "view_all a"] step [of "subject_averages a"] step [of "topper_and_duller a"]
      step [of "class_statistics a"] Cons.IH [of "say ''Invalid choice! Please enter 1-5'' w1"] w1
    by (simp add: Let_def w1_def [symmetric] view_all_csv subject_averages_csv
        topper_and_duller_csv class_statistics_csv)
qed

lemma prepare_csv: "files (snd (prepare w)) = files w"
  by (simp add: prepare_def split: option.split sum.split prod.split)

lemma analyze_body_csv: "files (snd (analyze_body w)) CSV_FILE = files w CSV_FILE"
proof (cases "prepare w")
  case (Pair x w1)
  then have "files w1 = files w"
    using prepare_csv [of w] by simp
  with Pair show ?thesis
    by (cases x) (simp_all add: analyze_body_def menu_loop_csv split: option.split)
qed

text \<open>
  C10. Whatever the file holds and whatever is typed in the submenu,
  \<^verbatim>\<open>analyze_performance\<close> leaves \<^verbatim>\<open>student_data.csv\<close> as it was: no view saves the table,
  so the computed \<^verbatim>\<open>Percentage\<close> and \<^verbatim>\<open>Grade\<close> columns never reach the store. (The only
  files written are the two chart images.)
\<close>

theorem analysis_keeps_store: "files (snd (analyze_performance w)) CSV_FILE = files w CSV_FILE"
proof (cases "analyze_body w")
  case (Pair x w1)
  then have "files w1 CSV_FILE = files w CSV_FILE"
    using analyze_body_csv [of w] by simp
  with Pair show ?thesis
    by (cases x) (simp_all add: analyze_performance_def)
qed

section \<open>The empty table\<close>

lemma ensure_columns_rows_length:
  "length (rows (ensure_columns subs df)) = length (rows df)"
  by (induction subs arbitrary: df) (simp_all add: add_column_def)

lemma prepare_nonempty:
  assumes "prepare w = (Inr (Some a), w1)"
  shows "rows (frame a) \<noteq> []"
proof -
  from assms obtain c where c: "files w CSV_FILE = Some c"
    by (cases "files w CSV_FILE") (simp_all add: prepare_def)
  from assms c obtain df0 where df0: "read_csv c = Inr df0" and ne: "\<not> df_empty df0"
    by (cases "read_csv c") (auto simp: prepare_def split: if_splits)
  obtain x evs where d: "derive (ensure_columns SUBJECTS df0) = (x, evs)"
    by (cases "derive (ensure_columns SUBJECTS df0)")
  from assms c df0 ne d have "x = Inr a"
    by (cases x) (auto simp: prepare_def split: if_splits)
  with d have "frame a = ensure_columns SUBJECTS df0"
    using derive_shape by blast
  moreover from ne have "rows df0 \<noteq> []"
    by (simp add: df_empty_def)
  ultimately show ?thesis
    using ensure_columns_rows_length [of SUBJECTS df0] by (metis length_0_conv)
qed

text \<open>
  The claim C9 as stated fails for a file of non-zero size that holds no record and no
  header, such as a lone line break. The size test lets it pass, \<^verbatim>\<open>read_csv\<close> raises
  \<^verbatim>\<open>EmptyDataError\<close>, and what is printed is the general error line of the
  \<^verbatim>\<open>except\<close> clause, not one of the two no-data messages.
\<close>

theorem blank_file_counterexample:
  "analyze_performance (world_with Blank_File) =
     (Inr (), py_print [Lit ''An error occurred during analysis: '', Exn EmptyDataError]
                (world_with Blank_File))
   \<and> stdout (snd (analyze_performance (world_with Blank_File)))
       \<noteq> stdout (say ''No data found! Add students first.'' (world_with Blank_File))
   \<and> stdout (snd (analyze_performance (world_with Blank_File)))
       \<noteq> stdout (say ''No student records found!'' (world_with Blank_File))"
  by (simp add: analyze_performance_def analyze_body_def prepare_def world_with_def
      st_size_zero_def read_csv_def py_print_def say_def)

text \<open>
  C9, amended. With no record to analyse, \<^verbatim>\<open>analyze_performance\<close> never enters the
  submenu and never raises. It prints \<^verbatim>\<open>No data found! Add students first.\<close> when the
  file is absent or has zero bytes, and \<^verbatim>\<open>No student records found!\<close> when the table
  has no row; when the file has bytes but no column to parse, the \<^verbatim>\<open>EmptyDataError\<close> of
  \<^verbatim>\<open>read_csv\<close> is caught and reported by the general error line. In each case that one
  line is all that happens: no line is read and no file is written. Conversely, whenever
  the submenu is entered, its table has at least one row, so the averages, the topper
  and duller selection and the class statistics never run on an empty table.
\<close>

theorem empty_table_reported:
  "(files w CSV_FILE = None \<or> files w CSV_FILE = Some Empty_File \<longrightarrow>
      analyze_performance w = (Inr (), say ''No data found! Add students first.'' w))
   \<and> (\<forall>df. files w CSV_FILE = Some (Csv df) \<and> df_empty df \<longrightarrow>
      analyze_performance w = (Inr (), say ''No student records found!'' w))
   \<and> (\<forall>c. files w CSV_FILE = Some c \<and> \<not> st_size_zero c \<and> read_csv c = Inl EmptyDataError \<longrightarrow>
      analyze_performance w =
        (Inr (), py_print [Lit ''An error occurred during analysis: '', Exn EmptyDataError] w))
   \<and> (\<forall>a w1. prepare w = (Inr (Some a), w1) \<longrightarrow> rows (frame a) \<noteq> [])"
proof (intro conjI allI impI)
  assume "files w CSV_FILE = None \<or> files w CSV_FILE = Some Empty_File"
  then have "prepare w = (Inr None, say ''No data found! Add students first.'' w)"
    by (auto simp: prepare_def st_size_zero_def)
  then show "analyze_performance w = (Inr (), say ''No data found! Add students first.'' w)"
    by (simp add: analyze_performance_def analyze_body_def)
next
  fix df
  assume "files w CSV_FILE = Some (Csv df) \<and> df_empty df"
  then have "prepare w = (Inr None, say ''No student records found!'' w)"
    by (simp add: prepare_def st_size_zero_def read_csv_def)
  then show "analyze_performance w = (Inr (), say ''No student records found!'' w)"
    by (simp add: analyze_performance_def analyze_body_def)
next
  fix c
  assume "files w CSV_FILE = Some c \<and> \<not> st_size_zero c \<and> read_csv c = Inl EmptyDataError"
  then have "prepare w = (Inl EmptyDataError, w)"
    by (simp add: prepare_def)
  then show "analyze_performance w =
        (Inr (), py_print [Lit ''An error occurred during analysis: '', Exn EmptyDataError] w)"
    by (simp add: analyze_performance_def analyze_body_def)
next
  fix a w1
  assume "prepare w = (Inr (Some a), w1)"
  then show "rows (frame a) \<noteq> []"
    by (rule prepare_nonempty)
qed

theorem empty_table_reported_witness:
  "analyze_performance fresh_world = (Inr (), say ''No data found! Add students first.'' fresh_world)
   \<and> analyze_performance (world_with Empty_File)
       = (Inr (), say ''No data found! Add students first.'' (world_with Empty_File))
   \<and> analyze_performance (world_with (Csv (DataFrame (''Name'' # SUBJECTS))))
       = (Inr (), say ''No student records found!'' (world_with (Csv (DataFrame (''Name'' # SUBJECTS)))))
   \<and> analyze_performance (world_with Blank_File)
       = (Inr (), py_print [Lit ''An error occurred during analysis: '', Exn EmptyDataError]
                    (world_with Blank_File))
   \<and> prepare (world_with (Csv tied_class)) = (Inr (Some tied_analysis), world_with (Csv tied_class))
   \<and> rows (frame tied_analysis) \<noteq> []"
proof -
  have a: "files fresh_world CSV_FILE = None"
    by (simp add: fresh_world_def)
  have f: "files (world_with c) CSV_FILE = Some c" for c
    by (simp add: world_with_def)
  have b: "df_empty (DataFrame (''Name'' # SUBJECTS))"
    by (simp add: df_empty_def DataFrame_def)
  have e: "\<not> st_size_zero Blank_File" "read_csv Blank_File = Inl EmptyDataError"
    by (simp_all add: st_size_zero_def read_csv_def)
  have d: "derive (ensure_columns SUBJECTS tied_class) = (Inr tied_analysis, [])"
    by code_simp
  have c: "prepare (world_with (Csv tied_class)) = (Inr (Some tied_analysis), world_with (Csv tied_class))"
    using d by (simp add: prepare_def world_with_def st_size_zero_def read_csv_def df_empty_def tied_class_def)
  have 1: "analyze_performance fresh_world
             = (Inr (), say ''No data found! Add students first.'' fresh_world)"
    using empty_table_reported [of fresh_world] a by blast
  have 2: "analyze_performance (world_with Empty_File)
             = (Inr (), say ''No data found! Add students first.'' (world_with Empty_File))"
    using empty_table_reported [of "world_with Empty_File"] f by blast
  have 3: "analyze_performance (world_with (Csv (DataFrame (''Name'' # SUBJECTS))))
       = (Inr (), say ''No student records found!'' (world_with (Csv (DataFrame (''Name'' # SUBJECTS)))))"
    using empty_table_reported [of "world_with (Csv (DataFrame (''Name'' # SUBJECTS)))"] f b
    by blast
  have 4: "analyze_performance (world_with Blank_File)
       = (Inr (), py_print [Lit ''An error occurred during analysis: '', Exn EmptyDataError]
                    (world_with Blank_File))"
    using empty_table_reported [of "world_with Blank_File"] f e by blast
  have 5: "rows (frame tied_analysis) \<noteq> []"
    using empty_table_reported [of "world_with (Csv tied_class)"] c by blast
  from 1 2 3 4 5 c show ?thesis
    by simp
qed

section \<open>Unreadable files\<close>

lemma analyze_performance_returns: "fst (analyze_performance w) = Inr ()"
proof (cases "analyze_body w")
  case (Pair x w1)
  then show ?thesis
    by (cases x) (simp_all add: analyze_performance_def)
qed

text \<open>
  The claim C5 as stated fails: \<^verbatim>\<open>initialize_csv\<close> catches \<^verbatim>\<open>EmptyDataError\<close> only. On a
  file that the tokenizer rejects, \<^verbatim>\<open>read_csv\<close> raises \<^verbatim>\<open>ParserError\<close>, which leaves
  \<^verbatim>\<open>initialize_csv\<close>, and with it \<^verbatim>\<open>main\<close>, where the call stands outside any \<^verbatim>\<open>try\<close>.
\<close>

theorem parse_error_counterexample:
  "initialize_csv (world_with Malformed) = (Inl ParserError, world_with Malformed)"
  by (simp add: initialize_csv_def world_with_def read_csv_def)

text \<open>
  C5, amended. A file that is absent, or in which \<^verbatim>\<open>read_csv\<close> finds no column to parse
  (\<^verbatim>\<open>EmptyDataError\<close>), is replaced at initialization by an empty table with the header
  columns; any other exception of \<^verbatim>\<open>read_csv\<close> leaves \<^verbatim>\<open>initialize_csv\<close> with nothing
  written. \<^verbatim>\<open>analyze_performance\<close> never raises, whatever the file holds: an exception
  of its body is caught and reported in one printed line, and when a file of non-zero
  size cannot be read that line is all the call does (the table is not replaced by an
  empty one).
\<close>

theorem read_errors_handled:
  "(files w CSV_FILE = None \<or> (\<exists>c. files w CSV_FILE = Some c \<and> read_csv c = Inl EmptyDataError) \<longrightarrow>
      initialize_csv w = (Inr (), to_csv (DataFrame (''Name'' # SUBJECTS)) CSV_FILE w))
   \<and> (\<forall>c e. files w CSV_FILE = Some c \<and> read_csv c = Inl e \<and> e \<noteq> EmptyDataError \<longrightarrow>
      initialize_csv w = (Inl e, w))
   \<and> fst (analyze_performance w) = Inr ()
   \<and> (\<forall>c e. files w CSV_FILE = Some c \<and> \<not> st_size_zero c \<and> read_csv c = Inl e \<longrightarrow>
      analyze_performance w
        = (Inr (), py_print [Lit ''An error occurred during analysis: '', Exn e] w))"
proof (intro conjI allI impI)
  assume "files w CSV_FILE = None \<or> (\<exists>c. files w CSV_FILE = Some c \<and> read_csv c = Inl EmptyDataError)"
  then show "initialize_csv w = (Inr (), to_csv (DataFrame (''Name'' # SUBJECTS)) CSV_FILE w)"
    by (auto simp: initialize_csv_def)
next
  fix c e
  assume "files w CSV_FILE = Some c \<and> read_csv c = Inl e \<and> e \<noteq> EmptyDataError"
  then show "initialize_csv w = (Inl e, w)"
    by (simp add: initialize_csv_def)
next
  show "fst (analyze_performance w) = Inr ()"
    by (rule analyze_performance_returns)
next
  fix c e
  assume "files w CSV_FILE = Some c \<and> \<not> st_size_zero c \<and> read_csv c = Inl e"
  then have "prepare w = (Inl e, w)"
    by (simp add: prepare_def)
  then show "analyze_performance w
        = (Inr (), py_print [Lit ''An error occurred during analysis: '', Exn e] w)"
    by (simp add: analyze_performance_def analyze_body_def)
qed

theorem read_errors_handled_witness:
  "initialize_csv (world_with Blank_File)
     = (Inr (), world_with (Csv (DataFrame (''Name'' # SUBJECTS))))
   \<and> analyze_performance (world_with Malformed)
     = (Inr (), py_print [Lit ''An error occurred during analysis: '', Exn ParserError]
                  (world_with Malformed))
   \<and> initialize_csv (world_with Malformed) = (Inl ParserError, world_with Malformed)"
proof -
  have a: "files (world_with c) CSV_FILE = Some c" for c
    by (simp add: world_with_def)
  have b: "read_csv Blank_File = Inl EmptyDataError" "read_csv Malformed = Inl ParserError"
    "\<not> st_size_zero Malformed"
    by (simp_all add: read_csv_def st_size_zero_def)
  have c: "to_csv (DataFrame (''Name'' # SUBJECTS)) CSV_FILE (world_with Blank_File)
             = world_with (Csv (DataFrame (''Name'' # SUBJECTS)))"
    by (simp add: to_csv_def world_with_def read_back_def DataFrame_def)
  from read_errors_handled [of "world_with Blank_File"] read_errors_handled [of "world_with Malformed"]
    a b c
  show ?thesis
    by simp
qed

section \<open>A subject label that is absent\<close>

lemma py_add_number:
  "\<forall>s. v \<noteq> StrV s \<Longrightarrow> \<exists>acc'. py_add acc v = Inr acc'"
  by (cases v; cases acc) simp_all

lemma py_sum_missing:
  assumes "\<exists>sub\<in>set subs. map_of row sub = None"
    and "\<forall>sub\<in>set subs. \<forall>s. map_of row sub \<noteq> Some (StrV s)"
  shows "py_sum row subs acc = Inl KeyError"
  using assms
proof (induction subs arbitrary: acc)
  case Nil
  then show ?case by simp
next
  case (Cons sub subs)
  show ?case
  proof (cases "map_of row sub")
    case None
    then show ?thesis by (simp add: getitem_def)
  next
    case (Some v)
    with Cons.prems(2) have "\<forall>s. v \<noteq> StrV s"
      by auto
    then obtain acc' where acc': "py_add acc v = Inr acc'"
      using py_add_number by blast
    from Cons.prems Some have "\<exists>sub\<in>set subs. map_of row sub = None"
      and "\<forall>sub\<in>set subs. \<forall>s. map_of row sub \<noteq> Some (StrV s)"
      by auto
    from Cons.IH [OF this] Some acc' show ?thesis
      by (simp add: getitem_def)
  qed
qed

lemma calculate_percentage_missing:
  assumes "getitem row ''Name'' = Inr n" and "lacks_subject row" and "no_text_marks row"
  shows "calculate_percentage row =
           (Inr (Fin 0), [Print [Lit ''Warning: Missing subject data for '', Cell n]])"
proof -
  have "\<exists>sub\<in>set SUBJECTS. map_of row sub = None"
    using assms(2) by (simp add: lacks_subject_def list_ex_iff)
  moreover have "\<forall>sub\<in>set SUBJECTS. \<forall>s. map_of row sub \<noteq> Some (StrV s)"
    using assms(3) by (auto simp: no_text_marks_def list_all_iff)
  ultimately have "py_sum row SUBJECTS (Fin 0) = Inl KeyError"
    by (rule py_sum_missing)
  with assms(1) show ?thesis
    by (simp add: calculate_percentage_def percentage_over_def percentage_body_def)
qed

lemma df_apply_append:
  "df_apply f (xs @ ys) =
     (case df_apply f xs of
        (Inl e, evs) \<Rightarrow> (Inl e, evs)
      | (Inr ps, evs) \<Rightarrow>
          (case df_apply f ys of
             (Inl e, evs') \<Rightarrow> (Inl e, evs @ evs')
           | (Inr qs, evs') \<Rightarrow> (Inr (ps @ qs), evs @ evs')))"
proof (induction xs)
  case Nil
  then show ?case by (simp split: prod.split sum.split)
next
  case (Cons x xs)
  then show ?case
    by (simp split: prod.split sum.split)
qed

text \<open>
  C7. Take a record with a name and with no text among its marks, in which the label of
  some subject is absent. Then \<^verbatim>\<open>row[sub]\<close> raises \<^verbatim>\<open>KeyError\<close> inside the sum,
  \<^verbatim>\<open>calculate_percentage\<close> prints the warning that names the student and returns \<open>0.0\<close>;
  and in \<^verbatim>\<open>df.apply\<close> over a table the records before and after it keep their own
  percentages, the record contributing \<open>0.0\<close> and its warning in its place. (The two
  conditions are the record type of the program: without the \<^verbatim>\<open>Name\<close> label the handler's
  own \<^verbatim>\<open>row['Name']\<close> raises, and a text mark met before the absent subject raises
  \<^verbatim>\<open>TypeError\<close> first.)
\<close>

theorem missing_subject_gives_zero:
  assumes "getitem row ''Name'' = Inr n" and "lacks_subject row" and "no_text_marks row"
  shows "calculate_percentage row =
           (Inr (Fin 0), [Print [Lit ''Warning: Missing subject data for '', Cell n]])
         \<and> (\<forall>pre post ps qs e1 e2.
               df_apply calculate_percentage pre = (Inr ps, e1)
               \<and> df_apply calculate_percentage post = (Inr qs, e2) \<longrightarrow>
               df_apply calculate_percentage (pre @ row # post) =
                 (Inr (ps @ Fin 0 # qs),
                  e1 @ Print [Lit ''Warning: Missing subject data for '', Cell n] # e2))"
proof -
  from calculate_percentage_missing [OF assms] show ?thesis
    by (simp add: df_apply_append)
qed

theorem missing_subject_gives_zero_witness:
  "getitem bala ''Name'' = Inr (StrV ''Bala'') \<and> lacks_subject bala \<and> no_text_marks bala
   \<and> calculate_percentage bala =
       (Inr (Fin 0), [Print [Lit ''Warning: Missing subject data for '', Cell (StrV ''Bala'')]])
   \<and> df_apply calculate_percentage [asha, bala, asha] =
       (Inr [Fin (6833 / 100), Fin 0, Fin (6833 / 100)],
        [Print [Lit ''Warning: Missing subject data for '', Cell (StrV ''Bala'')]])"
proof -
  have h: "getitem bala ''Name'' = Inr (StrV ''Bala'')" "lacks_subject bala" "no_text_marks bala"
    by code_simp+
  have a: "df_apply calculate_percentage [asha] = (Inr [Fin (6833 / 100)], [])"
    by code_simp
  from missing_subject_gives_zero [OF h] a
  have "df_apply calculate_percentage ([asha] @ bala # [asha]) =
         (Inr ([Fin (6833 / 100)] @ Fin 0 # [Fin (6833 / 100)]),
          [] @ Print [Lit ''Warning: Missing subject data for '', Cell (StrV ''Bala'')] # [])"
    by blast
  with missing_subject_gives_zero [OF h] h show ?thesis
    by simp
qed

section \<open>Missing subject columns and missing values\<close>





































section \<open>Adding a student\<close>

lemma stdin_say [simp]: "stdin (say s w) = stdin w"
  by (simp add: say_def py_print_def)

lemma stdin_prompt [simp]: "stdin (prompt s w) = stdin w"
  by (simp add: prompt_def)


lemma read_mark_accepts:
  "read_mark int_of sub w lines = (Inr m, w') \<Longrightarrow>
     files w' = files w \<and> accepted_marks int_of lines = m # accepted_marks int_of (stdin w')"
proof (induction lines arbitrary: w)
  case Nil
  then show ?case by simp
next
  case (Cons line rest)
  define w1 where "w1 = (prompt (''Enter '' @ sub @ '' marks (out of 100): '') w)\<lparr>stdin := rest\<rparr>"
  have w1: "files w1 = files w" "stdin w1 = rest"
    by (simp_all add: w1_def)
  show ?case
  proof (cases "int_of line")
    case None
    with Cons.prems have "read_mark int_of sub (say ''Please enter a valid number!'' w1) rest = (Inr m, w')"
      by (simp add: w1_def)
    from Cons.IH [OF this] w1 None show ?thesis
      by simp
  next
    case (Some k)
    show ?thesis
    proof (cases "0 \<le> k \<and> k \<le> 100")
      case True
      with Cons.prems Some have "m = k" "w' = w1"
        by (simp_all add: w1_def)
      with True Some w1 show ?thesis
        by simp
    next
      case False
      with Cons.prems Some
      have "read_mark int_of sub (say ''Marks should be between 0 and 100!'' w1) rest = (Inr m, w')"
        by (simp add: w1_def)
      from Cons.IH [OF this] w1 Some False show ?thesis
        by simp
    qed
  qed
qed

lemma read_mark_raise:
  "read_mark int_of sub w lines = (Inl e, w') \<Longrightarrow> files w' = files w"
proof (induction lines arbitrary: w)
  case Nil
  then show ?case by auto
next
  case (Cons line rest)
  define w1 where "w1 = (prompt (''Enter '' @ sub @ '' marks (out of 100): '') w)\<lparr>stdin := rest\<rparr>"
  have w1: "files w1 = files w"
    by (simp add: w1_def)
  show ?case
  proof (cases "int_of line")
    case None
    with Cons.prems have "read_mark int_of sub (say ''Please enter a valid number!'' w1) rest = (Inl e, w')"
      by (simp add: w1_def)
    from Cons.IH [OF this] w1 show ?thesis
      by simp
  next
    case (Some k)
    show ?thesis
    proof (cases "0 \<le> k \<and> k \<le> 100")
      case True
      with Cons.prems Some show ?thesis
        by (simp add: w1_def)
    next
      case False
      with Cons.prems Some
      have "read_mark int_of sub (say ''Marks should be between 0 and 100!'' w1) rest = (Inl e, w')"
        by (simp add: w1_def)
      from Cons.IH [OF this] w1 show ?thesis
        by simp
    qed
  qed
qed

lemma read_marks_accepts:
  "read_marks int_of subs w = (r, w') \<Longrightarrow>
     files w' = files w
     \<and> (\<forall>marks. r = Inr marks \<longrightarrow>
           length marks = length subs
           \<and> marks = take (length subs) (accepted_marks int_of (stdin w)))"
proof (induction subs arbitrary: w r w')
  case Nil
  then show ?case by auto
next
  case (Cons sub subs)
  obtain x w1 where one: "read_mark int_of sub w (stdin w) = (x, w1)"
    by (cases "read_mark int_of sub w (stdin w)")
  show ?case
  proof (cases x)
    case (Inl e)
    with Cons.prems one read_mark_raise [of int_of sub w "stdin w" e w1] show ?thesis
      by auto
  next
    case (Inr m)
    note s1 = read_mark_accepts [OF one [unfolded Inr]]
    obtain y w2 where more: "read_marks int_of subs w1 = (y, w2)"
      by (cases "read_marks int_of subs w1")
    note s2 = Cons.IH [OF more]
    show ?thesis
    proof (cases y)
      case (Inl e)
      with Cons.prems one Inr more s1 s2 show ?thesis
        by auto
    next
      case ms: (Inr ms)
      with Cons.prems one Inr more have r: "r = Inr (m # ms)" "w' = w2"
        by simp_all
      from s2 ms have l: "length ms = length subs"
        by blast
      from s2 ms have e: "ms = take (length subs) (accepted_marks int_of (stdin w1))"
        by blast
      from s1 have a: "accepted_marks int_of (stdin w) = m # accepted_marks int_of (stdin w1)"
        by blast
      have tk: "m # ms = take (length (sub # subs)) (accepted_marks int_of (stdin w))"
        unfolding a using e by simp
      have len: "length (m # ms) = length (sub # subs)"
        using l by simp
      have fs: "files w' = files w"
        using s1 s2 r by simp
      show ?thesis
      proof (intro conjI allI impI)
        show "files w' = files w"
          by (rule fs)
      next
        fix marks
        assume "r = Inr marks"
        with r have mk: "marks = m # ms"
          by simp
        show "length marks = length (sub # subs)"
          unfolding mk by (rule len)
        show "marks = take (length (sub # subs)) (accepted_marks int_of (stdin w))"
          unfolding mk by (rule tk)
      qed
    qed
  qed
qed








lemma add_student_cases:
  assumes "add_student int_of w = (r, w')"
  shows "(\<exists>e. r = Inl e \<and> files w' = files w)
         \<or> (\<exists>name lines w2. stdin w = name # lines \<and> files w2 = files w
               \<and> length SUBJECTS \<le> length (accepted_marks int_of lines)
               \<and> (r, w') = append_student
                    (new_student name (take (length SUBJECTS) (accepted_marks int_of lines))) w2)"
proof -
  define w1 where "w1 = prompt ''Enter student name: '' (say (CHR 0x0A # ''--- Add Student ---'') w)"
  have w1: "files w1 = files w" "stdin w1 = stdin w"
    by (simp_all add: w1_def)
  show ?thesis
  proof (cases "stdin w")
    case Nil
    with assms w1 have "r = Inl EOFError" "w' = w1"
      by (simp_all add: add_student_def Let_def w1_def [symmetric])
    with w1 show ?thesis
      by simp
  next
    case (Cons name lines)
    obtain x w2 where rm: "read_marks int_of SUBJECTS (w1\<lparr>stdin := lines\<rparr>) = (x, w2)"
      by (cases "read_marks int_of SUBJECTS (w1\<lparr>stdin := lines\<rparr>)")
    note s = read_marks_accepts [OF rm]
    then have f2: "files w2 = files w"
      using w1 by simp
    show ?thesis
    proof (cases x)
      case (Inl e)
      with assms Cons w1 rm have "r = Inl e" "w' = w2"
        by (simp_all add: add_student_def Let_def w1_def [symmetric])
      with f2 show ?thesis
        by simp
    next
      case (Inr marks)
      with s have l: "length marks = length SUBJECTS"
        by blast
      from Inr s have m: "marks = take (length SUBJECTS) (accepted_marks int_of lines)"
        by simp
      from m have "length marks = min (length (accepted_marks int_of lines)) (length SUBJECTS)"
        by simp
      with l have enough: "length SUBJECTS \<le> length (accepted_marks int_of lines)"
        by linarith
      from Inr assms Cons w1 rm have "(r, w') = append_student (new_student name marks) w2"
        by (simp add: add_student_def Let_def w1_def [symmetric])
      then have app: "(r, w') = append_student
          (new_student name (take (length SUBJECTS) (accepted_marks int_of lines))) w2"
        unfolding m .
      show ?thesis
      proof (rule disjI2, intro exI conjI)
        show "stdin w = name # lines"
          by (rule Cons)
        show "files w2 = files w"
          by (rule f2)
        show "length SUBJECTS \<le> length (accepted_marks int_of lines)"
          by (rule enough)
        show "(r, w') = append_student
          (new_student name (take (length SUBJECTS) (accepted_marks int_of lines))) w2"
          by (rule app)
      qed
    qed
  qed
qed



lemma csv_cell_simps [simp]:
  "csv_cell (IntV m) = IntV m" "csv_cell NaNV = NaNV"
  by (simp_all add: csv_cell_def)



lemma add_student_raise_keeps_files:
  assumes "add_student int_of w = (Inl e, w')"
  shows "files w' = files w"
proof -
  from add_student_cases [OF assms] consider "files w' = files w"
    | d w2 where "files w2 = files w" and "(Inl e, w') = append_student d w2"
    by auto
  then show ?thesis
  proof cases
    case 1
    then show ?thesis .
  next
    case 2
    then show ?thesis
      by (cases "load_or_new w2") (simp_all add: append_student_def)
  qed
qed




end
